theory Spec2Isabelle
  imports Main
begin

section \<open>The schedule table: a shallow embedding of ScheduleTable.tsx\<close>

text \<open>
  The component draws a weekly timetable: a header row of day labels, 24 time rows, one
  click target per (day, row) pair and one absolutely positioned block per schedule.

  Conventions of the embedding.
  \<^item> A JavaScript string is a \<open>string\<close>, read as its UTF-8 bytes. The only string
    operations of the source are equality, concatenation and splitting at \<open>":"\<close>; the byte
    \<open>0x3A\<close> occurs in UTF-8 only as that character, so all three agree with their
    UTF-16 originals. A Korean day label is written with \<open>CHR\<close> numerals.
  \<^item> A JavaScript number that is an array index, a pixel count or a millisecond offset is
    an \<open>int\<close>; the values of the component stay far inside the range where doubles are
    exact. Where the source can produce \<open>NaN\<close> (arithmetic on \<open>undefined\<close>) the number is a
    \<open>jsnum\<close>.
  \<^item> \<open>undefined\<close> as the result of an array read is \<open>None\<close>.
  \<^item> What the component imports from constants.ts and utils.ts (\<open>CellSize\<close>,
    \<open>DAY_LABELS\<close>, the minute constant and \<open>parseHnM\<close>) is a parameter of the definitions
    that use it.
\<close>

subsection \<open>JavaScript values and array primitives\<close>

datatype jsnum = Num int | NaN

text \<open>Binary arithmetic on numbers: \<open>NaN\<close> is absorbing.\<close>

fun js_add :: "jsnum \<Rightarrow> jsnum \<Rightarrow> jsnum" where
  "js_add (Num a) (Num b) = Num (a + b)"
| "js_add _ _ = NaN"

fun js_sub :: "jsnum \<Rightarrow> jsnum \<Rightarrow> jsnum" where
  "js_sub (Num a) (Num b) = Num (a - b)"
| "js_sub _ _ = NaN"

fun js_mul :: "jsnum \<Rightarrow> jsnum \<Rightarrow> jsnum" where
  "js_mul (Num a) (Num b) = Num (a * b)"
| "js_mul _ _ = NaN"

text \<open>
  The remainder operator \<open>%\<close>: the result takes the sign of the dividend, and a zero
  divisor gives \<open>NaN\<close>.
\<close>

definition js_rem :: "int \<Rightarrow> int \<Rightarrow> jsnum" where
  "js_rem a b = (if b = 0 then NaN else Num (sgn a * (\<bar>a\<bar> mod \<bar>b\<bar>)))"

text \<open>\<open>ToNumber\<close> of the result of an array read: \<open>undefined\<close> becomes \<open>NaN\<close>.\<close>

fun ToNumber :: "int option \<Rightarrow> jsnum" where
  "ToNumber None = NaN"
| "ToNumber (Some n) = Num n"

text \<open>
  \<open>xs[i]\<close>: the element when \<open>i\<close> is an index of the array, \<open>undefined\<close> otherwise
  (a negative or \<open>NaN\<close> index names a property the array does not have).
\<close>

fun array_get :: "'a list \<Rightarrow> jsnum \<Rightarrow> 'a option" where
  "array_get xs NaN = None"
| "array_get xs (Num i) = (if 0 \<le> i \<and> i < int (length xs) then Some (xs ! nat i) else None)"

text \<open>\<open>Array.prototype.indexOf\<close>: the first index holding the element, \<open>-1\<close> if none does.\<close>

fun indexOf_from :: "'a list \<Rightarrow> 'a \<Rightarrow> int \<Rightarrow> int" where
  "indexOf_from [] x k = - 1"
| "indexOf_from (y # ys) x k = (if y = x then k else indexOf_from ys x (k + 1))"

definition indexOf :: "'a list \<Rightarrow> 'a \<Rightarrow> int" where
  "indexOf xs x = indexOf_from xs x 0"

text \<open>\<open>xs.map((v, k) => f(v, k))\<close>: the callback receives the element and its index.\<close>

fun map_index_from :: "('a \<Rightarrow> int \<Rightarrow> 'b) \<Rightarrow> int \<Rightarrow> 'a list \<Rightarrow> 'b list" where
  "map_index_from f k [] = []"
| "map_index_from f k (x # xs) = f x k # map_index_from f (k + 1) xs"

definition map_index :: "('a \<Rightarrow> int \<Rightarrow> 'b) \<Rightarrow> 'a list \<Rightarrow> 'b list" where
  "map_index f xs = map_index_from f 0 xs"

text \<open>
  \<open>new Set(xs)\<close> followed by spreading: a set keeps its elements in insertion order, and
  adding an element it already holds changes nothing.
\<close>

definition Set_add :: "'a list \<Rightarrow> 'a \<Rightarrow> 'a list" where
  "Set_add s x = (if x \<in> set s then s else s @ [x])"

definition new_Set :: "'a list \<Rightarrow> 'a list" where
  "new_Set xs = foldl Set_add [] xs"

text \<open>
  \<open>s.split(":")\<close> for a one-character separator: the pieces between the occurrences of the
  separator; the empty string gives one empty piece.
\<close>

fun split :: "char \<Rightarrow> string \<Rightarrow> string list" where
  "split sep [] = [[]]"
| "split sep (c # cs) =
     (if c = sep then [] # split sep cs
      else (case split sep cs of
              [] \<Rightarrow> [[c]]
            | p # ps \<Rightarrow> (c # p) # ps))"

text \<open>Template-literal rendering of a non-negative integer: its decimal digits.\<close>

definition digit_char :: "nat \<Rightarrow> char" where
  "digit_char d = ''0123456789'' ! d"

function String_nat :: "nat \<Rightarrow> string" where
  "String_nat n =
     (if n < 10 then [digit_char n] else String_nat (n div 10) @ [digit_char (n mod 10)])"
  by pat_completeness auto
termination
  by (relation "measure (\<lambda>n. n)") auto

declare String_nat.simps [simp del]

subsection \<open>The time axis\<close>

text \<open>
  \<open>TIMES\<close> is a module-level constant of two spread arrays. \<open>MINUTE\<close> stands for the
  minute constant of constants.ts (its name is a Korean word) and \<open>parseHnM\<close> for the
  formatter of utils.ts. The intermediate arrays of start offsets are named, since the
  source builds them with a first \<open>map\<close> before formatting with a second.
\<close>

definition TIMES_day_starts :: "int \<Rightarrow> int list" where
  "TIMES_day_starts MINUTE = map_index (\<lambda>v k. v + k * 30 * MINUTE) (replicate 18 0)"

definition TIMES_evening_starts :: "int \<Rightarrow> int list" where
  "TIMES_evening_starts MINUTE =
     map_index (\<lambda>v k. v + k * 55 * MINUTE) (replicate 6 (18 * 30 * MINUTE))"

definition TIMES :: "(int \<Rightarrow> string) \<Rightarrow> int \<Rightarrow> string list" where
  "TIMES parseHnM MINUTE =
     map (\<lambda>v. parseHnM v @ ''~'' @ parseHnM (v + 30 * MINUTE)) (TIMES_day_starts MINUTE)
     @ map (\<lambda>v. parseHnM v @ ''~'' @ parseHnM (v + 50 * MINUTE)) (TIMES_evening_starts MINUTE)"

subsection \<open>Data model\<close>

text \<open>
  The records carry the fields of the types of types.ts that the component reads. \<open>id'\<close> and \<open>range'\<close> are the fields \<open>id\<close> and \<open>range\<close>.
\<close>

record Lecture =
  id' :: string
  title :: string

record Schedule =
  day :: string
  range' :: "int list"
  room :: string
  lecture :: Lecture

record CellSize =
  WIDTH :: int
  HEIGHT :: int

text \<open>The argument object of \<open>onScheduleTimeClick\<close>, with fields \<open>day\<close> and \<open>time\<close>.\<close>

record timeInfo =
  ti_day :: string
  ti_time :: int

text \<open>
  The drag context of the drag-and-drop library, as far as the component reads it:
  \<open>active\<close> holds \<open>dndContext.active?.id\<close>, \<open>None\<close> when no drag is in progress. Every
  draggable the component registers has a string id.
\<close>

record DndContext =
  active :: "string option"

text \<open>The three kinds of value the derived active table id can take.\<close>

datatype js_value = JSNull | JSUndefined | JSString string

text \<open>\<open>v === s\<close> for a string \<open>s\<close>.\<close>

fun strict_eq :: "js_value \<Rightarrow> string \<Rightarrow> bool" where
  "strict_eq (JSString t) s = (t = s)"
| "strict_eq _ s = False"

text \<open>A pixel length: \<open>Px n\<close> is the string made of the number \<open>n\<close> followed by \<open>px\<close>.\<close>

datatype css_px = Px jsnum

text \<open>How the evaluation of a component ends: with a thrown exception or with its element.\<close>

datatype 'a completion = Throw | Normal 'a

subsection \<open>The color assigner\<close>

definition colors :: "string list" where
  "colors = [''#fdd'', ''#ffd'', ''#dff'', ''#ddf'', ''#fdf'', ''#dfd'']"

definition lecture_ids :: "Schedule list \<Rightarrow> string list" where
  "lecture_ids schedules = map (\<lambda>s. id' (lecture s)) schedules"

definition getColor :: "Schedule list \<Rightarrow> string \<Rightarrow> string option" where
  "getColor schedules lectureId =
     (let lectures = new_Set (lecture_ids schedules)
      in array_get colors (js_rem (indexOf lectures lectureId) (int (length colors))))"

text \<open>
  The wording of the specification, for comparison with \<open>new_Set\<close>: the unique ids in
  first-seen order, that is, every id is kept where it occurs first and dropped later on.
\<close>

fun orderedUniqueIds :: "'a list \<Rightarrow> 'a list" where
  "orderedUniqueIds [] = []"
| "orderedUniqueIds (x # xs) = x # orderedUniqueIds (filter (\<lambda>y. y \<noteq> x) xs)"

text \<open>
  The closure behind \<open>getColor\<close>, with its effects made explicit. The function given to
  \<open>useMemo\<close> binds two arrays, \<open>lectures\<close> and \<open>colors\<close>, and returns an arrow function that
  keeps both. Arrays are mutable objects, so the pair of them is the state of the closure:
  \<open>getColor_factory\<close> builds it from the schedule list, and a call takes the state and the
  lecture id and returns the token together with the state it leaves behind. The body of
  the arrow function only reads (\<open>indexOf\<close>, \<open>length\<close>, an index read), so a call hands the
  state back as it found it.
\<close>

record getColor_closure =
  captured_lectures :: "string list"
  captured_colors :: "string list"

definition getColor_factory :: "Schedule list \<Rightarrow> getColor_closure" where
  "getColor_factory schedules =
     \<lparr> captured_lectures = new_Set (lecture_ids schedules), captured_colors = colors \<rparr>"

definition getColor_call :: "getColor_closure \<Rightarrow> string \<Rightarrow> string option \<times> getColor_closure" where
  "getColor_call env lectureId =
     (array_get (captured_colors env)
        (js_rem (indexOf (captured_lectures env) lectureId)
                (int (length (captured_colors env)))),
      env)"

text \<open>
  Calls one after the other on the same closure, each starting from the state the call
  before it left: the tokens in call order and the final state. This is how the table
  uses the closure, once per schedule, in schedule order.
\<close>

fun getColor_calls :: "getColor_closure \<Rightarrow> string list \<Rightarrow> string option list \<times> getColor_closure" where
  "getColor_calls env [] = ([], env)"
| "getColor_calls env (x # xs) =
     (case getColor_call env x of
        (t, env1) \<Rightarrow> (case getColor_calls env1 xs of (ts, env2) \<Rightarrow> (t # ts, env2)))"

subsection \<open>The active table of a drag\<close>

definition activeTableId :: "DndContext \<Rightarrow> js_value" where
  "activeTableId dndContext =
     (case active dndContext of
        None \<Rightarrow> JSNull
      | Some activeId \<Rightarrow>
          if activeId \<noteq> [] then
            (case array_get (split CHR '':'' activeId) (Num 0) of
               Some t \<Rightarrow> JSString t
             | None \<Rightarrow> JSUndefined)
          else JSNull)"

text \<open>The \<open>outline\<close> property of the outer box: \<open>None\<close> is \<open>undefined\<close>, no outline.\<close>

definition outline :: "DndContext \<Rightarrow> string \<Rightarrow> string option" where
  "outline dndContext tableId =
     (if strict_eq (activeTableId dndContext) tableId then Some ''5px dashed'' else None)"

subsection \<open>The positioned block of a schedule\<close>

text \<open>
  The box of one schedule: the id it registers as a draggable, its four style lengths and
  its background. The popover and the two text lines inside the box are left out.
  \<open>top'\<close> is the property \<open>top\<close>.
\<close>

record Box =
  draggable_id :: string
  left :: css_px
  top' :: css_px
  width :: css_px
  height :: css_px
  bg :: "string option"

definition DraggableSchedule ::
  "CellSize \<Rightarrow> string list \<Rightarrow> string \<Rightarrow> Schedule \<Rightarrow> string option \<Rightarrow> Box completion" where
  "DraggableSchedule cs DAY_LABELS ident data bg_prop =
     (let leftIndex = indexOf DAY_LABELS (day data);
          topIndex = js_sub (ToNumber (array_get (range' data) (Num 0))) (Num 1);
          size = int (length (range' data))
      in Normal \<lparr>
           draggable_id = ident,
           left = Px (Num (120 + (WIDTH cs * leftIndex) + 1)),
           top' = Px (js_add (Num 40) (js_add (js_mul topIndex (Num (HEIGHT cs))) (Num 1))),
           width = Px (Num (WIDTH cs - 1)),
           height = Px (Num (HEIGHT cs * size - 1)),
           bg = bg_prop \<rparr>)"

subsection \<open>The table\<close>

text \<open>
  A click target of the grid. A handler is a transformer of the state of the collaborator
  that owns the callback: calling the callback once with \<open>a\<close> is applying \<open>cb a\<close> once.
\<close>

record 'st GridItem =
  onClick :: "'st \<Rightarrow> 'st"

record 'st Props =
  tableId :: string
  schedules :: "Schedule list"
  onScheduleTimeClick :: "(timeInfo \<Rightarrow> 'st \<Rightarrow> 'st) option"

text \<open>\<open>onScheduleTimeClick?.(arg)\<close>: no call when the property is not given.\<close>

definition optional_call :: "('a \<Rightarrow> 'st \<Rightarrow> 'st) option \<Rightarrow> 'a \<Rightarrow> 'st \<Rightarrow> 'st" where
  "optional_call f a st = (case f of None \<Rightarrow> st | Some cb \<Rightarrow> cb a st)"

record 'st Table =
  table_outline :: "string option"
  rows :: "(string \<times> 'st GridItem list) list"
  blocks :: "Box completion list"

text \<open>
  The element tree of the table, as far as it carries behaviour: the outline of the outer
  box, per time row its label and its click targets in day order, and the blocks in
  schedule order. \<open>axis\<close> is the constant \<open>TIMES\<close>.
\<close>

definition ScheduleTable ::
  "CellSize \<Rightarrow> string list \<Rightarrow> string list \<Rightarrow> DndContext \<Rightarrow> 'st Props \<Rightarrow> 'st Table" where
  "ScheduleTable cs DAY_LABELS axis dndContext props =
     \<lparr> table_outline = outline dndContext (tableId props),
       rows = map_index (\<lambda>time timeIndex.
                (time,
                 map (\<lambda>d. \<lparr> onClick = optional_call (onScheduleTimeClick props)
                                         \<lparr> ti_day = d, ti_time = timeIndex + 1 \<rparr> \<rparr>)
                     DAY_LABELS))
              axis,
       blocks = map_index (\<lambda>schedule index.
                  DraggableSchedule cs DAY_LABELS
                    (tableId props @ '':'' @ String_nat (nat index))
                    schedule
                    (getColor (schedules props) (id' (lecture schedule))))
                (schedules props) \<rparr>"

subsection \<open>Concrete instances of the missing constants\<close>

text \<open>
  Modelled from the spec: \<open>DAY_LABELS\<close> of constants.ts is missing; this is the day set of
  the scenario in section 8 of the specification, Monday to Friday, each label a single
  Hangul syllable in UTF-8.
\<close>

definition day_mon :: string where "day_mon = [CHR 0xEC, CHR 0x9B, CHR 0x94]"
definition day_tue :: string where "day_tue = [CHR 0xED, CHR 0x99, CHR 0x94]"
definition day_wed :: string where "day_wed = [CHR 0xEC, CHR 0x88, CHR 0x98]"
definition day_thu :: string where "day_thu = [CHR 0xEB, CHR 0xAA, CHR 0xA9]"
definition day_fri :: string where "day_fri = [CHR 0xEA, CHR 0xB8, CHR 0x88]"

definition DAY_LABELS_spec :: "string list" where
  "DAY_LABELS_spec = [day_mon, day_tue, day_wed, day_thu, day_fri]"

text \<open>
  Modelled from the spec: \<open>CellSize\<close> of constants.ts is missing; the scenario of section 8
  has a cell width of 80. The specification gives no cell height; 30 is an example value.
\<close>

definition CellSize_spec :: CellSize where
  "CellSize_spec = \<lparr> WIDTH = 80, HEIGHT = 30 \<rparr>"

text \<open>
  Modelled from the spec: \<open>parseHnM\<close> of utils.ts is missing; the specification fixes the
  \<open>HH:MM\<close> form of a label and a fixed base time. This instance reads its argument as
  milliseconds and counts from \<open>base\<close> minutes after midnight.
\<close>

definition fill2 :: "nat \<Rightarrow> string" where
  "fill2 n = (if n < 10 then ''0'' @ String_nat n else String_nat n)"

definition parseHnM_spec :: "int \<Rightarrow> int \<Rightarrow> string" where
  "parseHnM_spec base v =
     (let m = nat ((base + v div 60000) mod 1440)
      in fill2 (m div 60) @ '':'' @ fill2 (m mod 60))"

text \<open>Example data for evaluating the definitions at concrete inputs.\<close>

definition example_schedule :: "string \<Rightarrow> int list \<Rightarrow> string \<Rightarrow> Schedule" where
  "example_schedule d r lid =
     \<lparr> day = d, range' = r, room = ''B101'', lecture = \<lparr> id' = lid, title = ''Lecture'' \<rparr> \<rparr>"

definition example_week :: "Schedule list" where
  "example_week =
     [example_schedule day_mon [1, 2] ''L0'', example_schedule day_tue [3, 4, 5] ''L1'',
      example_schedule day_wed [1, 2] ''L0'', example_schedule day_wed [6] ''L2'',
      example_schedule day_thu [7, 8] ''L3'', example_schedule day_thu [1] ''L1'',
      example_schedule day_fri [2, 3] ''L4'', example_schedule day_fri [9] ''L5'',
      example_schedule day_mon [19, 20] ''L6'']"

text \<open>A callback that records its arguments: the state is the list of calls so far.\<close>

definition record_call :: "timeInfo \<Rightarrow> timeInfo list \<Rightarrow> timeInfo list" where
  "record_call a calls = calls @ [a]"

section \<open>Properties\<close>

subsection \<open>Array primitives\<close>

lemma length_map_index_from: "length (map_index_from f k xs) = length xs"
  by (induction xs arbitrary: k) simp_all

lemma nth_map_index_from:
  "i < length xs \<Longrightarrow> map_index_from f k xs ! i = f (xs ! i) (k + int i)"
proof (induction xs arbitrary: k i)
  case Nil
  then show ?case by simp
next
  case (Cons x xs)
  show ?case
  proof (cases i)
    case 0
    then show ?thesis by simp
  next
    case (Suc j)
    with Cons.prems have "j < length xs" by simp
    from Cons.IH [OF this, of "k + 1"] Suc show ?thesis by (simp add: add.assoc)
  qed
qed

lemma length_map_index: "length (map_index f xs) = length xs"
  by (simp add: map_index_def length_map_index_from)

lemma nth_map_index: "i < length xs \<Longrightarrow> map_index f xs ! i = f (xs ! i) (int i)"
  by (simp add: map_index_def nth_map_index_from)

lemma indexOf_from_absent: "x \<notin> set xs \<Longrightarrow> indexOf_from xs x k = - 1"
  by (induction xs arbitrary: k) auto

lemma indexOf_from_present:
  "x \<in> set xs \<Longrightarrow>
   \<exists>i. i < length xs \<and> xs ! i = x \<and> (\<forall>j<i. xs ! j \<noteq> x) \<and> indexOf_from xs x k = k + int i"
proof (induction xs arbitrary: k)
  case Nil
  then show ?case by simp
next
  case (Cons y ys)
  show ?case
  proof (cases "y = x")
    case True
    then have "0 < length (y # ys) \<and> (y # ys) ! 0 = x \<and> (\<forall>j<0. (y # ys) ! j \<noteq> x)
        \<and> indexOf_from (y # ys) x k = k + int 0"
      by simp
    then show ?thesis by blast
  next
    case False
    with Cons.prems have "x \<in> set ys" by simp
    from Cons.IH [OF this, of "k + 1"] obtain i where
      i: "i < length ys" "ys ! i = x" "\<forall>j<i. ys ! j \<noteq> x" "indexOf_from ys x (k + 1) = k + 1 + int i"
      by blast
    have "\<forall>j<Suc i. (y # ys) ! j \<noteq> x"
      using False i(3) by (auto simp: nth_Cons split: nat.splits)
    with i False have "Suc i < length (y # ys) \<and> (y # ys) ! Suc i = x \<and> (\<forall>j<Suc i. (y # ys) ! j \<noteq> x)
        \<and> indexOf_from (y # ys) x k = k + int (Suc i)"
      by simp
    then show ?thesis by blast
  qed
qed

lemma indexOf_absent: "x \<notin> set xs \<Longrightarrow> indexOf xs x = - 1"
  by (simp add: indexOf_def indexOf_from_absent)

lemma indexOf_present:
  "x \<in> set xs \<Longrightarrow>
   \<exists>i. i < length xs \<and> xs ! i = x \<and> (\<forall>j<i. xs ! j \<noteq> x) \<and> indexOf xs x = int i"
  using indexOf_from_present [of x xs 0] by (simp add: indexOf_def)

lemma indexOf_nth_distinct:
  assumes "distinct xs" "i < length xs"
  shows "indexOf xs (xs ! i) = int i"
proof -
  from assms(2) have "xs ! i \<in> set xs" by simp
  from indexOf_present [OF this] obtain j where
    j: "j < length xs" "xs ! j = xs ! i" "indexOf xs (xs ! i) = int j" by blast
  from assms j(1,2) have "j = i" by (simp add: nth_eq_iff_index_eq)
  with j(3) show ?thesis by simp
qed

lemma set_orderedUniqueIds: "set (orderedUniqueIds xs) = set xs"
  by (induction xs rule: orderedUniqueIds.induct) auto

lemma distinct_orderedUniqueIds: "distinct (orderedUniqueIds xs)"
  by (induction xs rule: orderedUniqueIds.induct) (auto simp: set_orderedUniqueIds)

lemma foldl_Set_add:
  "foldl Set_add acc xs = acc @ orderedUniqueIds (filter (\<lambda>y. y \<notin> set acc) xs)"
proof (induction xs arbitrary: acc)
  case Nil
  then show ?case by simp
next
  case (Cons x xs)
  show ?case
  proof (cases "x \<in> set acc")
    case True
    then have "Set_add acc x = acc" by (simp add: Set_add_def)
    with True show ?thesis by (simp add: Cons.IH)
  next
    case False
    then have step: "Set_add acc x = acc @ [x]" by (simp add: Set_add_def)
    have "filter (\<lambda>y. y \<notin> set (acc @ [x])) xs
        = filter (\<lambda>y. y \<noteq> x) (filter (\<lambda>y. y \<notin> set acc) xs)"
      by (auto intro: filter_cong)
    with False step show ?thesis by (simp add: Cons.IH)
  qed
qed

lemma new_Set_orderedUniqueIds: "new_Set xs = orderedUniqueIds xs"
  by (simp add: new_Set_def foldl_Set_add)

lemma length_colors: "length colors = 6"
  by (simp add: colors_def)

lemma getColor_nth:
  assumes "i < length (orderedUniqueIds (lecture_ids scheds))"
  shows "getColor scheds (orderedUniqueIds (lecture_ids scheds) ! i) = Some (colors ! (i mod 6))"
proof -
  let ?u = "orderedUniqueIds (lecture_ids scheds)"
  have idx: "indexOf ?u (?u ! i) = int i"
    using assms by (rule indexOf_nth_distinct [OF distinct_orderedUniqueIds])
  have "js_rem (int i) 6 = Num (int (i mod 6))"
    by (cases "i = 0") (simp_all add: js_rem_def zmod_int)
  then show ?thesis
    by (simp add: getColor_def new_Set_orderedUniqueIds idx length_colors)
qed

lemma getColor_absent:
  assumes "x \<notin> set (lecture_ids scheds)"
  shows "getColor scheds x = None"
proof -
  from assms have "indexOf (new_Set (lecture_ids scheds)) x = - 1"
    by (simp add: new_Set_orderedUniqueIds set_orderedUniqueIds indexOf_absent)
  moreover have "js_rem (- 1) 6 = Num (- 1)" by (simp add: js_rem_def)
  ultimately show ?thesis by (simp add: getColor_def length_colors)
qed

lemma split_first: "\<exists>ps. split sep s = takeWhile (\<lambda>c. c \<noteq> sep) s # ps"
  by (induction s) (auto split: list.splits)

subsection \<open>The time axis\<close>

text \<open>
  Claim C6. The time axis is a fixed ordered sequence of exactly 24 row labels. It takes no
  input: whatever the formatter and the minute constant it imports, the two spread arrays
  have 18 and 6 elements.
\<close>

theorem TIMES_length: "length (TIMES parseHnM MINUTE) = 24"
  by (simp add: TIMES_def TIMES_day_starts_def TIMES_evening_starts_def length_map_index)

text \<open>
  Claim C7. Rows 19 to 24 of the time axis (indices \<open>18 + k\<close> for \<open>k\<close> from 0 to 5) start
  \<open>18 * 30 + k * 55\<close> minutes after the base time, so they advance by 55 minutes, and the
  label of each shows the start and the time 50 minutes after it. Row 18 (index 17) ends
  at \<open>18 * 30\<close> minutes, which is where row 19 starts.
\<close>

theorem TIMES_evening_rows:
  assumes "k < 6"
  shows "TIMES_evening_starts MINUTE ! k = (18 * 30 + int k * 55) * MINUTE
       \<and> TIMES parseHnM MINUTE ! (18 + k)
           = parseHnM ((18 * 30 + int k * 55) * MINUTE) @ ''~''
             @ parseHnM ((18 * 30 + int k * 55) * MINUTE + 50 * MINUTE)
       \<and> TIMES parseHnM MINUTE ! 17
           = parseHnM (17 * 30 * MINUTE) @ ''~'' @ parseHnM (18 * 30 * MINUTE)"
proof -
  have len_day: "length (TIMES_day_starts MINUTE) = 18"
    by (simp add: TIMES_day_starts_def length_map_index)
  have len_eve: "length (TIMES_evening_starts MINUTE) = 6"
    by (simp add: TIMES_evening_starts_def length_map_index)
  have start: "TIMES_evening_starts MINUTE ! k = (18 * 30 + int k * 55) * MINUTE"
    using assms by (simp add: TIMES_evening_starts_def nth_map_index algebra_simps)
  have last_day: "TIMES_day_starts MINUTE ! 17 = 17 * 30 * MINUTE"
    by (simp add: TIMES_day_starts_def nth_map_index)
  have eve: "TIMES parseHnM MINUTE ! (18 + k)
      = parseHnM (TIMES_evening_starts MINUTE ! k) @ ''~''
        @ parseHnM (TIMES_evening_starts MINUTE ! k + 50 * MINUTE)"
    using assms by (simp add: TIMES_def nth_append len_day len_eve)
  have day: "TIMES parseHnM MINUTE ! 17
      = parseHnM (TIMES_day_starts MINUTE ! 17) @ ''~''
        @ parseHnM (TIMES_day_starts MINUTE ! 17 + 30 * MINUTE)"
    by (simp add: TIMES_def nth_append len_day)
  have "17 * 30 * MINUTE + 30 * MINUTE = 18 * 30 * MINUTE" by simp
  with start eve day last_day show ?thesis by simp
qed

theorem TIMES_evening_rows_witness:
  "(5::nat) < 6
   \<and> TIMES_evening_starts 60000 ! 5 = 815 * 60000
   \<and> TIMES (parseHnM_spec 540) 60000 ! 23 = ''22:35~23:25''
   \<and> TIMES (parseHnM_spec 540) 60000 ! 17 = ''17:30~18:00''"
proof -
  have h: "(5::nat) < 6" by simp
  have a: "parseHnM_spec 540 ((18 * 30 + int 5 * 55) * 60000) = ''22:35''" by code_simp
  have b: "parseHnM_spec 540 ((18 * 30 + int 5 * 55) * 60000 + 50 * 60000) = ''23:25''" by code_simp
  have c: "parseHnM_spec 540 (17 * 30 * 60000) = ''17:30''" by code_simp
  have d: "parseHnM_spec 540 (18 * 30 * 60000) = ''18:00''" by code_simp
  from TIMES_evening_rows [OF h, of 60000 "parseHnM_spec 540"] a b c d h
  show ?thesis by simp
qed

subsection \<open>The coordinate mapper\<close>

lemma DraggableSchedule_box:
  "DraggableSchedule cs DAY_LABELS ident data b =
     Normal \<lparr> draggable_id = ident,
              left = Px (Num (120 + WIDTH cs * indexOf DAY_LABELS (day data) + 1)),
              top' = Px (js_add (Num 40)
                       (js_add (js_mul (js_sub (ToNumber (array_get (range' data) (Num 0))) (Num 1))
                                       (Num (HEIGHT cs)))
                               (Num 1))),
              width = Px (Num (WIDTH cs - 1)),
              height = Px (Num (HEIGHT cs * int (length (range' data)) - 1)),
              bg = b \<rparr>"
  by (simp add: DraggableSchedule_def)

lemma first_slot: "r \<noteq> [] \<Longrightarrow> ToNumber (array_get r (Num 0)) = Num (hd r)"
  by (cases r) simp_all

lemma days_differ: "day_mon \<noteq> day_tue"
  by (simp add: day_mon_def day_tue_def)

text \<open>
  Claim C1. For a schedule whose day is one of the day labels and whose range is not empty,
  the block is placed by the affine transform: with \<open>i\<close> the 0-based position of the day in
  the day ordering (the first index holding it), left is \<open>120 + i * WIDTH + 1\<close>, top is
  \<open>40 + (first slot - 1) * HEIGHT + 1\<close>, width is \<open>WIDTH - 1\<close> and height is
  \<open>HEIGHT * length - 1\<close>, all in pixels. Contiguity of the range is not needed.
\<close>

theorem DraggableSchedule_position:
  assumes "day data \<in> set DAY_LABELS" and "range' data \<noteq> []"
  shows "\<exists>i box. i < length DAY_LABELS \<and> DAY_LABELS ! i = day data
           \<and> (\<forall>j<i. DAY_LABELS ! j \<noteq> day data)
           \<and> DraggableSchedule cs DAY_LABELS ident data b = Normal box
           \<and> left box = Px (Num (120 + int i * WIDTH cs + 1))
           \<and> top' box = Px (Num (40 + (hd (range' data) - 1) * HEIGHT cs + 1))
           \<and> width box = Px (Num (WIDTH cs - 1))
           \<and> height box = Px (Num (HEIGHT cs * int (length (range' data)) - 1))"
proof -
  from indexOf_present [OF assms(1)] obtain i where
    i: "i < length DAY_LABELS" "DAY_LABELS ! i = day data"
       "\<forall>j<i. DAY_LABELS ! j \<noteq> day data" "indexOf DAY_LABELS (day data) = int i"
    by blast
  let ?box = "\<lparr> draggable_id = ident,
              left = Px (Num (120 + int i * WIDTH cs + 1)),
              top' = Px (Num (40 + (hd (range' data) - 1) * HEIGHT cs + 1)),
              width = Px (Num (WIDTH cs - 1)),
              height = Px (Num (HEIGHT cs * int (length (range' data)) - 1)),
              bg = b \<rparr>"
  have "DraggableSchedule cs DAY_LABELS ident data b = Normal ?box"
    by (simp add: DraggableSchedule_box i(4) first_slot [OF assms(2)] mult.commute
        del: array_get.simps)
  with i(1-3) show ?thesis by auto
qed

theorem DraggableSchedule_position_witness:
  "day (example_schedule day_tue [3, 4, 5] ''L1'') \<in> set DAY_LABELS_spec
   \<and> range' (example_schedule day_tue [3, 4, 5] ''L1'') \<noteq> []
   \<and> (\<exists>box. DraggableSchedule CellSize_spec DAY_LABELS_spec ''tableA:1''
               (example_schedule day_tue [3, 4, 5] ''L1'') (Some ''#ffd'') = Normal box
         \<and> left box = Px (Num 201) \<and> top' box = Px (Num 101)
         \<and> width box = Px (Num 79) \<and> height box = Px (Num 89))"
proof -
  let ?d = "example_schedule day_tue [3, 4, 5] ''L1''"
  have h1: "day ?d \<in> set DAY_LABELS_spec"
    by (simp add: example_schedule_def DAY_LABELS_spec_def)
  have h2: "range' ?d \<noteq> []"
    by (simp add: example_schedule_def)
  from DraggableSchedule_position [OF h1 h2, of CellSize_spec "''tableA:1''" "Some ''#ffd''"]
  obtain i box where
    i: "i < length DAY_LABELS_spec" "DAY_LABELS_spec ! i = day ?d"
       "\<forall>j<i. DAY_LABELS_spec ! j \<noteq> day ?d"
    and box: "DraggableSchedule CellSize_spec DAY_LABELS_spec ''tableA:1'' ?d (Some ''#ffd'') = Normal box"
       "left box = Px (Num (120 + int i * WIDTH CellSize_spec + 1))"
       "top' box = Px (Num (40 + (hd (range' ?d) - 1) * HEIGHT CellSize_spec + 1))"
       "width box = Px (Num (WIDTH CellSize_spec - 1))"
       "height box = Px (Num (HEIGHT CellSize_spec * int (length (range' ?d)) - 1))"
    by blast
  have "i = 1"
  proof (rule ccontr)
    assume "i \<noteq> 1"
    then consider "i = 0" | "1 < i" by arith
    then show False
    proof cases
      case 1
      with i(2) show False
        by (simp add: DAY_LABELS_spec_def example_schedule_def day_mon_def day_tue_def)
    next
      case 2
      with i(3) have "DAY_LABELS_spec ! 1 \<noteq> day ?d" by blast
      then show False by (simp add: DAY_LABELS_spec_def example_schedule_def)
    qed
  qed
  with box have "DraggableSchedule CellSize_spec DAY_LABELS_spec ''tableA:1'' ?d (Some ''#ffd'') = Normal box
      \<and> left box = Px (Num 201) \<and> top' box = Px (Num 101)
      \<and> width box = Px (Num 79) \<and> height box = Px (Num 89)"
    by (simp add: CellSize_spec_def example_schedule_def)
  with h1 h2 show ?thesis by blast
qed

text \<open>
  Claim C9. For a fixed schedule (so a fixed range) and a positive cell width, placing it
  on two distinct valid days gives distinct left values, and the horizontal extents from
  left to left + width do not meet: one ends strictly before the other begins. The
  vertical placement is the same for both.
\<close>

theorem distinct_days_disjoint_columns:
  assumes "0 < WIDTH cs"
    and "d1 \<in> set DAY_LABELS" and "d2 \<in> set DAY_LABELS" and "d1 \<noteq> d2"
  shows "\<exists>b1 b2 l1 l2 w.
           DraggableSchedule cs DAY_LABELS ident1 (data\<lparr>day := d1\<rparr>) bg1 = Normal b1
         \<and> DraggableSchedule cs DAY_LABELS ident2 (data\<lparr>day := d2\<rparr>) bg2 = Normal b2
         \<and> left b1 = Px (Num l1) \<and> left b2 = Px (Num l2)
         \<and> width b1 = Px (Num w) \<and> width b2 = Px (Num w)
         \<and> top' b1 = top' b2 \<and> height b1 = height b2
         \<and> l1 \<noteq> l2 \<and> (l1 + w < l2 \<or> l2 + w < l1)"
proof -
  from indexOf_present [OF assms(2)] obtain i where
    i: "i < length DAY_LABELS" "DAY_LABELS ! i = d1" "indexOf DAY_LABELS d1 = int i"
    by blast
  from indexOf_present [OF assms(3)] obtain j where
    j: "j < length DAY_LABELS" "DAY_LABELS ! j = d2" "indexOf DAY_LABELS d2 = int j"
    by blast
  from i(2) j(2) assms(4) have neq: "i \<noteq> j" by auto
  let ?W = "WIDTH cs"
  let ?l1 = "120 + ?W * int i + 1" and ?l2 = "120 + ?W * int j + 1"
  have apart: "?l1 + (?W - 1) < ?l2 \<or> ?l2 + (?W - 1) < ?l1"
  proof (cases "i < j")
    case True
    then have "int i + 1 \<le> int j" by simp
    with assms(1) have "?W * (int i + 1) \<le> ?W * int j"
      by (intro mult_left_mono) simp_all
    then have "?l1 + (?W - 1) < ?l2" by (simp add: algebra_simps)
    then show ?thesis by blast
  next
    case False
    with neq have "int j + 1 \<le> int i" by simp
    with assms(1) have "?W * (int j + 1) \<le> ?W * int i"
      by (intro mult_left_mono) simp_all
    then have "?l2 + (?W - 1) < ?l1" by (simp add: algebra_simps)
    then show ?thesis by blast
  qed
  from apart assms(1) have differ: "?l1 \<noteq> ?l2" by auto
  obtain b1 where b1: "DraggableSchedule cs DAY_LABELS ident1 (data\<lparr>day := d1\<rparr>) bg1 = Normal b1"
    "left b1 = Px (Num ?l1)" "width b1 = Px (Num (?W - 1))"
    "top' b1 = Px (js_add (Num 40)
                       (js_add (js_mul (js_sub (ToNumber (array_get (range' data) (Num 0))) (Num 1))
                                       (Num (HEIGHT cs)))
                               (Num 1)))"
    "height b1 = Px (Num (HEIGHT cs * int (length (range' data)) - 1))"
    by (simp add: DraggableSchedule_box i(3))
  obtain b2 where b2: "DraggableSchedule cs DAY_LABELS ident2 (data\<lparr>day := d2\<rparr>) bg2 = Normal b2"
    "left b2 = Px (Num ?l2)" "width b2 = Px (Num (?W - 1))"
    "top' b2 = Px (js_add (Num 40)
                       (js_add (js_mul (js_sub (ToNumber (array_get (range' data) (Num 0))) (Num 1))
                                       (Num (HEIGHT cs)))
                               (Num 1)))"
    "height b2 = Px (Num (HEIGHT cs * int (length (range' data)) - 1))"
    by (simp add: DraggableSchedule_box j(3))
  from b1 b2 apart differ show ?thesis by (metis (no_types))
qed

theorem distinct_days_disjoint_columns_witness:
  "0 < WIDTH CellSize_spec
   \<and> day_mon \<in> set DAY_LABELS_spec \<and> day_tue \<in> set DAY_LABELS_spec \<and> day_mon \<noteq> day_tue
   \<and> (\<exists>b1 b2.
         DraggableSchedule CellSize_spec DAY_LABELS_spec ''tableA:0''
           ((example_schedule day_wed [3, 4, 5] ''L1'')\<lparr>day := day_mon\<rparr>) None = Normal b1
       \<and> DraggableSchedule CellSize_spec DAY_LABELS_spec ''tableA:1''
           ((example_schedule day_wed [3, 4, 5] ''L1'')\<lparr>day := day_tue\<rparr>) None = Normal b2
       \<and> left b1 = Px (Num 121) \<and> width b1 = Px (Num 79)
       \<and> left b2 = Px (Num 201) \<and> width b2 = Px (Num 79)
       \<and> top' b1 = top' b2 \<and> height b1 = height b2)"
proof -
  let ?data = "example_schedule day_wed [3, 4, 5] ''L1''"
  have h0: "0 < WIDTH CellSize_spec" by (simp add: CellSize_spec_def)
  have h1: "day_mon \<in> set DAY_LABELS_spec" by (simp add: DAY_LABELS_spec_def)
  have h2: "day_tue \<in> set DAY_LABELS_spec" by (simp add: DAY_LABELS_spec_def)
  from distinct_days_disjoint_columns [OF h0 h1 h2 days_differ, of "''tableA:0''" ?data None "''tableA:1''" None]
  obtain b1 b2 l1 l2 w where
    b: "DraggableSchedule CellSize_spec DAY_LABELS_spec ''tableA:0'' (?data\<lparr>day := day_mon\<rparr>) None = Normal b1"
       "DraggableSchedule CellSize_spec DAY_LABELS_spec ''tableA:1'' (?data\<lparr>day := day_tue\<rparr>) None = Normal b2"
    and l: "left b1 = Px (Num l1)" "left b2 = Px (Num l2)" "l1 + w < l2 \<or> l2 + w < l1"
    and same: "top' b1 = top' b2" "height b1 = height b2"
    by blast
  have i1: "indexOf DAY_LABELS_spec day_mon = 0"
    by (simp add: indexOf_def DAY_LABELS_spec_def)
  have i2: "indexOf DAY_LABELS_spec day_tue = 1"
    using days_differ by (simp add: indexOf_def DAY_LABELS_spec_def)
  from b(1) have "left b1 = Px (Num 121) \<and> width b1 = Px (Num 79)"
    by (auto simp add: DraggableSchedule_box i1 CellSize_spec_def example_schedule_def)
  moreover from b(2) have "left b2 = Px (Num 201) \<and> width b2 = Px (Num 79)"
    by (auto simp add: DraggableSchedule_box i2 CellSize_spec_def example_schedule_def)
  ultimately show ?thesis using h0 h1 h2 days_differ b same by blast
qed

text \<open>
  Claim C4, as stated: a day label outside the day set or an empty range makes the
  coordinate mapper fail loudly. It does not. With the day set and cell width of the
  specification's scenario, the unknown day \<open>Sun\<close> is drawn at left 41px, one column to
  the left of the first day, and an empty range is drawn with top \<open>NaNpx\<close> and height -1px.
\<close>

theorem DraggableSchedule_violation_renders:
  "''Sun'' \<notin> set DAY_LABELS_spec
   \<and> DraggableSchedule CellSize_spec DAY_LABELS_spec ''tableA:0''
        (example_schedule ''Sun'' [3, 4] ''L0'') None
      = Normal \<lparr> draggable_id = ''tableA:0'', left = Px (Num 41), top' = Px (Num 101),
                 width = Px (Num 79), height = Px (Num 59), bg = None \<rparr>
   \<and> DraggableSchedule CellSize_spec DAY_LABELS_spec ''tableA:1''
        (example_schedule day_mon [] ''L0'') None
      = Normal \<lparr> draggable_id = ''tableA:1'', left = Px (Num 121), top' = Px NaN,
                 width = Px (Num 79), height = Px (Num (- 1)), bg = None \<rparr>
   \<and> DraggableSchedule CellSize_spec DAY_LABELS_spec ''tableA:0''
        (example_schedule ''Sun'' [3, 4] ''L0'') None \<noteq> Throw
   \<and> DraggableSchedule CellSize_spec DAY_LABELS_spec ''tableA:1''
        (example_schedule day_mon [] ''L0'') None \<noteq> Throw"
  by (simp add: DraggableSchedule_box indexOf_def DAY_LABELS_spec_def CellSize_spec_def
      example_schedule_def day_mon_def day_tue_def day_wed_def day_thu_def day_fri_def)

text \<open>
  Claim C4, amended: the coordinate mapper has no failure path; it always yields a box.
  For a day outside the day set the index is -1 and left is \<open>120 - WIDTH + 1\<close> pixels; for
  an empty range top is \<open>NaN\<close> pixels and height is -1 pixel.
\<close>

theorem DraggableSchedule_never_throws:
  "\<exists>box. DraggableSchedule cs DAY_LABELS ident data b = Normal box
     \<and> (day data \<notin> set DAY_LABELS \<longrightarrow> left box = Px (Num (120 - WIDTH cs + 1)))
     \<and> (range' data = [] \<longrightarrow> top' box = Px NaN \<and> height box = Px (Num (- 1)))"
  by (simp add: DraggableSchedule_box indexOf_absent)

theorem DraggableSchedule_never_throws_witness:
  "day (example_schedule ''Sat'' [] ''L2'') \<notin> set DAY_LABELS_spec
   \<and> range' (example_schedule ''Sat'' [] ''L2'') = []
   \<and> (\<exists>box. DraggableSchedule CellSize_spec DAY_LABELS_spec ''tableB:3''
               (example_schedule ''Sat'' [] ''L2'') (Some ''#dff'') = Normal box
         \<and> left box = Px (Num 41) \<and> top' box = Px NaN \<and> height box = Px (Num (- 1)))"
proof -
  let ?d = "example_schedule ''Sat'' [] ''L2''"
  have h1: "day ?d \<notin> set DAY_LABELS_spec"
    by (simp add: example_schedule_def DAY_LABELS_spec_def day_mon_def day_tue_def
        day_wed_def day_thu_def day_fri_def)
  have h2: "range' ?d = []" by (simp add: example_schedule_def)
  from DraggableSchedule_never_throws [of CellSize_spec DAY_LABELS_spec "''tableB:3''" ?d "Some ''#dff''"]
  obtain box where
    "DraggableSchedule CellSize_spec DAY_LABELS_spec ''tableB:3'' ?d (Some ''#dff'') = Normal box"
    "day ?d \<notin> set DAY_LABELS_spec \<longrightarrow> left box = Px (Num (120 - WIDTH CellSize_spec + 1))"
    "range' ?d = [] \<longrightarrow> top' box = Px NaN \<and> height box = Px (Num (- 1))"
    by blast
  with h1 h2 have "DraggableSchedule CellSize_spec DAY_LABELS_spec ''tableB:3'' ?d (Some ''#dff'') = Normal box
      \<and> left box = Px (Num 41) \<and> top' box = Px NaN \<and> height box = Px (Num (- 1))"
    by (simp add: CellSize_spec_def)
  with h1 h2 show ?thesis by blast
qed

subsection \<open>The color assigner\<close>

lemma example_week_ids:
  "lecture_ids example_week
     = [''L0'', ''L1'', ''L0'', ''L2'', ''L3'', ''L1'', ''L4'', ''L5'', ''L6'']"
  by (simp add: lecture_ids_def example_week_def example_schedule_def)

lemma example_week_unique:
  "orderedUniqueIds (lecture_ids example_week)
     = [''L0'', ''L1'', ''L2'', ''L3'', ''L4'', ''L5'', ''L6'']"
  by (simp add: example_week_ids)

text \<open>
  Claim C2. The list the color assigner builds with \<open>new Set\<close> is the list of unique
  lecture ids in first-seen order: it equals \<open>orderedUniqueIds\<close>, has no duplicates and holds
  exactly the ids of the schedule list. The palette has 6 colors, and the id at position
  \<open>i\<close> of that list gets the color at position \<open>i mod 6\<close>. Hence, when the unique ids are
  \<open>L0\<close> to \<open>L6\<close> in first-seen order, \<open>L0\<close> and \<open>L6\<close> get the same color, the first of the
  palette.
\<close>

theorem getColor_first_seen_cycle:
  "new_Set (lecture_ids scheds) = orderedUniqueIds (lecture_ids scheds)
   \<and> distinct (new_Set (lecture_ids scheds))
   \<and> set (new_Set (lecture_ids scheds)) = set (lecture_ids scheds)
   \<and> length colors = 6
   \<and> (\<forall>i < length (new_Set (lecture_ids scheds)).
         getColor scheds (new_Set (lecture_ids scheds) ! i) = Some (colors ! (i mod 6)))
   \<and> (new_Set (lecture_ids scheds) = [L0, L1, L2, L3, L4, L5, L6] \<longrightarrow>
         getColor scheds L0 = getColor scheds L6 \<and> getColor scheds L0 = Some ''#fdd'')"
proof -
  let ?u = "new_Set (lecture_ids scheds)"
  have nth: "\<forall>i < length ?u. getColor scheds (?u ! i) = Some (colors ! (i mod 6))"
    by (simp add: new_Set_orderedUniqueIds getColor_nth)
  have cycle: "getColor scheds L0 = getColor scheds L6 \<and> getColor scheds L0 = Some ''#fdd''"
    if u: "?u = [L0, L1, L2, L3, L4, L5, L6]"
  proof -
    from u have len: "0 < length ?u" "6 < length ?u" by simp_all
    from nth len(1) have "getColor scheds (?u ! 0) = Some (colors ! (0 mod 6))" by blast
    with u have first: "getColor scheds L0 = Some (colors ! 0)" by simp
    from nth len(2) have "getColor scheds (?u ! 6) = Some (colors ! (6 mod 6))" by blast
    with u have last: "getColor scheds L6 = Some (colors ! 0)" by simp
    from first last show ?thesis by (simp add: colors_def)
  qed
  have "new_Set (lecture_ids scheds) = orderedUniqueIds (lecture_ids scheds)"
    by (rule new_Set_orderedUniqueIds)
  moreover have "distinct ?u"
    by (simp add: new_Set_orderedUniqueIds distinct_orderedUniqueIds)
  moreover have "set ?u = set (lecture_ids scheds)"
    by (simp add: new_Set_orderedUniqueIds set_orderedUniqueIds)
  moreover note length_colors nth
  moreover from cycle have "?u = [L0, L1, L2, L3, L4, L5, L6] \<longrightarrow>
      getColor scheds L0 = getColor scheds L6 \<and> getColor scheds L0 = Some ''#fdd''"
    by blast
  ultimately show ?thesis by blast
qed

theorem getColor_first_seen_cycle_witness:
  "new_Set (lecture_ids example_week) = [''L0'', ''L1'', ''L2'', ''L3'', ''L4'', ''L5'', ''L6'']
   \<and> (3::nat) < length (new_Set (lecture_ids example_week))
   \<and> getColor example_week ''L3'' = Some ''#ddf''
   \<and> getColor example_week ''L0'' = getColor example_week ''L6''
   \<and> getColor example_week ''L0'' = Some ''#fdd''"
proof -
  have u: "new_Set (lecture_ids example_week) = [''L0'', ''L1'', ''L2'', ''L3'', ''L4'', ''L5'', ''L6'']"
    by (simp add: new_Set_orderedUniqueIds example_week_unique)
  note inst = getColor_first_seen_cycle
    [of example_week "''L0''" "''L1''" "''L2''" "''L3''" "''L4''" "''L5''" "''L6''"]
  from u have len: "3 < length (new_Set (lecture_ids example_week))" by simp
  from inst have "\<forall>i < length (new_Set (lecture_ids example_week)).
      getColor example_week (new_Set (lecture_ids example_week) ! i) = Some (colors ! (i mod 6))"
    by blast
  with len have "getColor example_week (new_Set (lecture_ids example_week) ! 3)
      = Some (colors ! (3 mod 6))"
    by blast
  with u have three: "getColor example_week ''L3'' = Some ''#ddf''"
    by (simp add: colors_def)
  from inst u have "getColor example_week ''L0'' = getColor example_week ''L6''
      \<and> getColor example_week ''L0'' = Some ''#fdd''"
    by blast
  with u len three show ?thesis by blast
qed

lemma getColor_call_factory:
  "getColor_call (getColor_factory scheds) x = (getColor scheds x, getColor_factory scheds)"
  by (simp add: getColor_call_def getColor_factory_def getColor_def)

lemma getColor_calls_factory:
  "getColor_calls (getColor_factory scheds) ids
     = (map (getColor scheds) ids, getColor_factory scheds)"
  by (induction ids) (simp_all add: getColor_call_factory)

lemma getColor_present:
  assumes "x \<in> set (lecture_ids scheds)"
  shows "\<exists>c \<in> set colors. getColor scheds x = Some c"
proof -
  let ?u = "orderedUniqueIds (lecture_ids scheds)"
  from assms have "x \<in> set ?u" by (simp add: set_orderedUniqueIds)
  then obtain i where i: "i < length ?u" "?u ! i = x" by (auto simp: in_set_conv_nth)
  from getColor_nth [OF i(1)] i(2) have "getColor scheds x = Some (colors ! (i mod 6))" by simp
  moreover have "colors ! (i mod 6) \<in> set colors"
    by (rule nth_mem) (simp add: length_colors)
  ultimately show ?thesis by blast
qed

text \<open>
  Claim C8. For a fixed schedule list the color assigner is deterministic across calls.
  Take the closure built from the list and call it any number of times in a row, each call
  starting from the state the previous one left. Two calls with the same lecture id, at
  any two places of the sequence and whatever was asked in between, return the same
  token, and the closure ends in the state it was built in: no call writes to the two
  arrays it captured. The token of each call is the one \<open>getColor\<close> gives for the list,
  and for an id that occurs in the list it is a color of the palette.
\<close>

theorem getColor_calls_deterministic:
  assumes "getColor_calls (getColor_factory scheds) ids = (tokens, env')"
    and "i < length ids" and "j < length ids" and "ids ! i = ids ! j"
  shows "length tokens = length ids
       \<and> tokens ! i = tokens ! j
       \<and> env' = getColor_factory scheds
       \<and> tokens ! i = getColor scheds (ids ! i)
       \<and> (ids ! i \<in> set (lecture_ids scheds) \<longrightarrow> (\<exists>c \<in> set colors. tokens ! i = Some c))"
proof -
  from assms(1) have tokens: "tokens = map (getColor scheds) ids"
    and env: "env' = getColor_factory scheds"
    by (simp_all add: getColor_calls_factory)
  from tokens assms(2) have ti: "tokens ! i = getColor scheds (ids ! i)" by simp
  from tokens assms(3) have tj: "tokens ! j = getColor scheds (ids ! j)" by simp
  from ti tj assms(4) have same: "tokens ! i = tokens ! j" by simp
  have "\<exists>c \<in> set colors. tokens ! i = Some c" if "ids ! i \<in> set (lecture_ids scheds)"
    using getColor_present [OF that] ti by simp
  with tokens env ti same show ?thesis by simp
qed

theorem getColor_calls_deterministic_witness:
  "getColor_calls (getColor_factory example_week) (lecture_ids example_week)
     = ([Some ''#fdd'', Some ''#ffd'', Some ''#fdd'', Some ''#dff'', Some ''#ddf'',
         Some ''#ffd'', Some ''#fdf'', Some ''#dfd'', Some ''#fdd''],
        getColor_factory example_week)
   \<and> (0::nat) < length (lecture_ids example_week) \<and> (2::nat) < length (lecture_ids example_week)
   \<and> lecture_ids example_week ! 0 = lecture_ids example_week ! 2
   \<and> lecture_ids example_week ! 0 \<in> set (lecture_ids example_week)
   \<and> getColor example_week (lecture_ids example_week ! 0) = Some ''#fdd''"
proof -
  let ?ids = "lecture_ids example_week"
  let ?tokens = "[Some ''#fdd'', Some ''#ffd'', Some ''#fdd'', Some ''#dff'', Some ''#ddf'',
         Some ''#ffd'', Some ''#fdf'', Some ''#dfd'', Some ''#fdd'']"
  have u: "new_Set ?ids = [''L0'', ''L1'', ''L2'', ''L3'', ''L4'', ''L5'', ''L6'']"
    by (simp add: new_Set_orderedUniqueIds example_week_unique)
  have f: "getColor_factory example_week
      = \<lparr> captured_lectures = [''L0'', ''L1'', ''L2'', ''L3'', ''L4'', ''L5'', ''L6''],
          captured_colors = colors \<rparr>"
    by (simp add: getColor_factory_def u)
  have run: "getColor_calls (getColor_factory example_week) ?ids = (?tokens, getColor_factory example_week)"
    by (simp add: f example_week_ids getColor_call_def colors_def indexOf_def js_rem_def)
  have h1: "0 < length ?ids" and h2: "2 < length ?ids" and h3: "?ids ! 0 = ?ids ! 2"
    and h4: "?ids ! 0 \<in> set ?ids"
    by (simp_all add: example_week_ids)
  from getColor_calls_deterministic [OF run h1 h2 h3]
  have "?tokens ! 0 = getColor example_week (?ids ! 0)" by blast
  then have "getColor example_week (?ids ! 0) = Some ''#fdd''" by simp
  with run h1 h2 h3 h4 show ?thesis by blast
qed

text \<open>
  Claim C10. For a lecture id that does not occur in the schedule list the lookup index is
  -1, the remainder of -1 by 6 is -1, the palette has no element there, and the color
  assigner returns \<open>undefined\<close>: no palette color, and no failure.
\<close>

theorem getColor_unknown_lecture:
  assumes "x \<notin> set (lecture_ids scheds)"
  shows "indexOf (new_Set (lecture_ids scheds)) x = - 1
       \<and> js_rem (- 1) (int (length colors)) = Num (- 1)
       \<and> array_get colors (Num (- 1)) = None
       \<and> getColor scheds x = None"
proof -
  from assms have "indexOf (new_Set (lecture_ids scheds)) x = - 1"
    by (simp add: new_Set_orderedUniqueIds set_orderedUniqueIds indexOf_absent)
  moreover have "js_rem (- 1) (int (length colors)) = Num (- 1)"
    by (simp add: js_rem_def length_colors)
  moreover have "array_get colors (Num (- 1)) = None" by simp
  moreover from assms have "getColor scheds x = None" by (rule getColor_absent)
  ultimately show ?thesis by blast
qed

theorem getColor_unknown_lecture_witness:
  "''L9'' \<notin> set (lecture_ids example_week) \<and> getColor example_week ''L9'' = None"
proof -
  have h: "''L9'' \<notin> set (lecture_ids example_week)"
    by (simp add: example_week_ids)
  from getColor_unknown_lecture [OF h] h show ?thesis by blast
qed

subsection \<open>The active table of a drag\<close>

lemma split_hd:
  "array_get (split sep s) (Num 0) = Some (takeWhile (\<lambda>c. c \<noteq> sep) s)"
proof -
  from split_first [of sep s] obtain ps where "split sep s = takeWhile (\<lambda>c. c \<noteq> sep) s # ps"
    by blast
  then show ?thesis by simp
qed

lemma takeWhile_before_sep:
  "sep \<notin> set t \<Longrightarrow> takeWhile (\<lambda>c. c \<noteq> sep) (t @ sep # r) = t"
  by (induction t) auto

lemma activeTableId_Some:
  "s \<noteq> [] \<Longrightarrow> activeTableId \<lparr> active = Some s \<rparr> = JSString (takeWhile (\<lambda>c. c \<noteq> CHR '':'') s)"
  by (simp add: activeTableId_def split_hd del: array_get.simps)

lemma activeTableId_None: "activeTableId \<lparr> active = None \<rparr> = JSNull"
  by (simp add: activeTableId_def)

lemma outline_Some:
  "s \<noteq> [] \<Longrightarrow>
   outline \<lparr> active = Some s \<rparr> tid
     = (if tid = takeWhile (\<lambda>c. c \<noteq> CHR '':'') s then Some ''5px dashed'' else None)"
  by (auto simp add: outline_def activeTableId_Some)

lemma outline_None: "outline \<lparr> active = None \<rparr> tid = None"
  by (simp add: outline_def activeTableId_None)

text \<open>The id a block registers: the table id, a colon and the index of its schedule.\<close>

lemma blocks_ScheduleTable:
  assumes "k < length (schedules props)"
  shows "blocks (ScheduleTable cs DAY_LABELS axis dndContext props) ! k
       = DraggableSchedule cs DAY_LABELS (tableId props @ '':'' @ String_nat k)
           (schedules props ! k) (getColor (schedules props) (id' (lecture (schedules props ! k))))"
  using assms by (simp add: ScheduleTable_def nth_map_index)

lemma table_outline_ScheduleTable:
  "table_outline (ScheduleTable cs DAY_LABELS axis dndContext props) = outline dndContext (tableId props)"
  by (simp add: ScheduleTable_def)

text \<open>
  Claim C5. When the drag context holds the id of a block, a table id followed by \<open>":"\<close>
  and the decimal schedule index, the derived active table id is the part of the id before
  its first \<open>":"\<close>; it is the table id itself when that contains no \<open>":"\<close>. A table shows the
  dashed outline exactly when its own id equals that part. When the drag context holds no
  id, the derived active table id is \<open>null\<close> and no table shows the outline.
\<close>

theorem active_table_outline:
  "activeTableId \<lparr> active = Some (t @ '':'' @ String_nat k) \<rparr>
     = JSString (takeWhile (\<lambda>c. c \<noteq> CHR '':'') (t @ '':'' @ String_nat k))
   \<and> (CHR '':'' \<notin> set t \<longrightarrow>
        activeTableId \<lparr> active = Some (t @ '':'' @ String_nat k) \<rparr> = JSString t)
   \<and> table_outline (ScheduleTable cs DAY_LABELS axis \<lparr> active = Some (t @ '':'' @ String_nat k) \<rparr> props)
     = (if tableId props = takeWhile (\<lambda>c. c \<noteq> CHR '':'') (t @ '':'' @ String_nat k)
        then Some ''5px dashed'' else None)
   \<and> activeTableId \<lparr> active = None \<rparr> = JSNull
   \<and> table_outline (ScheduleTable cs DAY_LABELS axis \<lparr> active = None \<rparr> props) = None"
proof -
  let ?id = "t @ '':'' @ String_nat k"
  have ne: "?id \<noteq> []" by simp
  have a: "activeTableId \<lparr> active = Some ?id \<rparr> = JSString (takeWhile (\<lambda>c. c \<noteq> CHR '':'') ?id)"
    using ne by (rule activeTableId_Some)
  have b: "takeWhile (\<lambda>c. c \<noteq> CHR '':'') ?id = t" if "CHR '':'' \<notin> set t"
    using that by (simp add: takeWhile_before_sep)
  have c: "table_outline (ScheduleTable cs DAY_LABELS axis \<lparr> active = Some ?id \<rparr> props)
     = (if tableId props = takeWhile (\<lambda>c. c \<noteq> CHR '':'') ?id then Some ''5px dashed'' else None)"
    unfolding table_outline_ScheduleTable using ne by (rule outline_Some)
  have d: "table_outline (ScheduleTable cs DAY_LABELS axis \<lparr> active = None \<rparr> props) = None"
    unfolding table_outline_ScheduleTable by (rule outline_None)
  from a b c d activeTableId_None show ?thesis by metis
qed

theorem active_table_outline_witness:
  "CHR '':'' \<notin> set ''tableA''
   \<and> ''tableA'' @ '':'' @ String_nat 2 = ''tableA:2''
   \<and> activeTableId \<lparr> active = Some ''tableA:2'' \<rparr> = JSString ''tableA''
   \<and> table_outline (ScheduleTable CellSize_spec DAY_LABELS_spec (TIMES (parseHnM_spec 540) 60000)
        \<lparr> active = Some ''tableA:2'' \<rparr>
        \<lparr> tableId = ''tableA'', schedules = example_week, onScheduleTimeClick = Some record_call \<rparr>)
      = Some ''5px dashed''
   \<and> table_outline (ScheduleTable CellSize_spec DAY_LABELS_spec (TIMES (parseHnM_spec 540) 60000)
        \<lparr> active = Some ''tableA:2'' \<rparr>
        \<lparr> tableId = ''tableB'', schedules = example_week, onScheduleTimeClick = Some record_call \<rparr>)
      = None"
proof -
  have h: "CHR '':'' \<notin> set ''tableA''" by simp
  have s: "''tableA'' @ '':'' @ String_nat 2 = ''tableA:2''"
    by (simp add: String_nat.simps digit_char_def)
  have tw: "takeWhile (\<lambda>c. c \<noteq> CHR '':'') ''tableA:2'' = ''tableA''" by simp
  note a = active_table_outline [of "''tableA''" 2 CellSize_spec DAY_LABELS_spec
      "TIMES (parseHnM_spec 540) 60000"
      "\<lparr> tableId = ''tableA'', schedules = example_week, onScheduleTimeClick = Some record_call \<rparr>"]
  note b = active_table_outline [of "''tableA''" 2 CellSize_spec DAY_LABELS_spec
      "TIMES (parseHnM_spec 540) 60000"
      "\<lparr> tableId = ''tableB'', schedules = example_week, onScheduleTimeClick = Some record_call \<rparr>"]
  from a h have "activeTableId \<lparr> active = Some (''tableA'' @ '':'' @ String_nat 2) \<rparr> = JSString ''tableA''"
    by blast
  with s have one: "activeTableId \<lparr> active = Some ''tableA:2'' \<rparr> = JSString ''tableA''" by simp
  from a have two: "table_outline (ScheduleTable CellSize_spec DAY_LABELS_spec (TIMES (parseHnM_spec 540) 60000)
        \<lparr> active = Some ''tableA:2'' \<rparr>
        \<lparr> tableId = ''tableA'', schedules = example_week, onScheduleTimeClick = Some record_call \<rparr>)
      = Some ''5px dashed''"
    unfolding s tw by simp
  from b have three: "table_outline (ScheduleTable CellSize_spec DAY_LABELS_spec (TIMES (parseHnM_spec 540) 60000)
        \<lparr> active = Some ''tableA:2'' \<rparr>
        \<lparr> tableId = ''tableB'', schedules = example_week, onScheduleTimeClick = Some record_call \<rparr>)
      = None"
    unfolding s tw by simp
  from h s one two three show ?thesis by blast
qed

subsection \<open>The click targets\<close>

lemma rows_ScheduleTable:
  assumes "i < length axis" and "j < length DAY_LABELS"
  shows "snd (rows (ScheduleTable cs DAY_LABELS axis dndContext props) ! i) ! j
       = \<lparr> onClick = optional_call (onScheduleTimeClick props)
                        \<lparr> ti_day = DAY_LABELS ! j, ti_time = int i + 1 \<rparr> \<rparr>"
  using assms by (simp add: ScheduleTable_def nth_map_index)

text \<open>
  Claim C3. The grid has 24 rows of click targets, one target per day label in each.
  With \<open>onScheduleTimeClick\<close> given, clicking the target at 0-based row index \<open>i\<close> in the
  column of day \<open>d\<close> has the effect of calling the callback once, with day \<open>d\<close> and time
  \<open>i + 1\<close>. At row index 5 in the first column of the specification's day set, a callback
  that records its calls ends with the single call of that day and time 6.
\<close>

theorem click_reports_day_and_slot:
  assumes "i < 24" and "j < length DAY_LABELS" and "onScheduleTimeClick props = Some cb"
  shows "length (rows (ScheduleTable cs DAY_LABELS (TIMES parseHnM MINUTE) dndContext props)) = 24
       \<and> length (snd (rows (ScheduleTable cs DAY_LABELS (TIMES parseHnM MINUTE) dndContext props) ! i))
           = length DAY_LABELS
       \<and> onClick (snd (rows (ScheduleTable cs DAY_LABELS (TIMES parseHnM MINUTE) dndContext props) ! i) ! j) st
           = cb \<lparr> ti_day = DAY_LABELS ! j, ti_time = int i + 1 \<rparr> st"
proof -
  have len: "length (TIMES parseHnM MINUTE) = 24"
    by (simp add: TIMES_def TIMES_day_starts_def TIMES_evening_starts_def length_map_index)
  with assms(1) have i: "i < length (TIMES parseHnM MINUTE)" by simp
  have "length (rows (ScheduleTable cs DAY_LABELS (TIMES parseHnM MINUTE) dndContext props)) = 24"
    by (simp add: ScheduleTable_def length_map_index len)
  moreover have "length (snd (rows (ScheduleTable cs DAY_LABELS (TIMES parseHnM MINUTE) dndContext props) ! i))
      = length DAY_LABELS"
    using i by (simp add: ScheduleTable_def nth_map_index)
  moreover have "onClick (snd (rows (ScheduleTable cs DAY_LABELS (TIMES parseHnM MINUTE) dndContext props) ! i) ! j) st
      = cb \<lparr> ti_day = DAY_LABELS ! j, ti_time = int i + 1 \<rparr> st"
    by (simp add: rows_ScheduleTable [OF i assms(2)] optional_call_def assms(3))
  ultimately show ?thesis by blast
qed

theorem click_reports_day_and_slot_witness:
  "(5::nat) < 24 \<and> 0 < length DAY_LABELS_spec \<and> DAY_LABELS_spec ! 0 = day_mon
   \<and> onClick (snd (rows (ScheduleTable CellSize_spec DAY_LABELS_spec (TIMES (parseHnM_spec 540) 60000)
                          \<lparr> active = None \<rparr>
                          \<lparr> tableId = ''tableA'', schedules = example_week,
                            onScheduleTimeClick = Some record_call \<rparr>) ! 5) ! 0) []
       = [\<lparr> ti_day = day_mon, ti_time = 6 \<rparr>]"
proof -
  let ?props = "\<lparr> tableId = ''tableA'', schedules = example_week,
                  onScheduleTimeClick = Some record_call \<rparr>"
  have h1: "(5::nat) < 24" by simp
  have h2: "0 < length DAY_LABELS_spec" by (simp add: DAY_LABELS_spec_def)
  have h3: "onScheduleTimeClick ?props = Some record_call" by simp
  have d: "DAY_LABELS_spec ! 0 = day_mon" by (simp add: DAY_LABELS_spec_def)
  from click_reports_day_and_slot [OF h1 h2 h3, of CellSize_spec "parseHnM_spec 540" 60000 "\<lparr> active = None \<rparr>" "[]"]
  have "onClick (snd (rows (ScheduleTable CellSize_spec DAY_LABELS_spec (TIMES (parseHnM_spec 540) 60000)
                          \<lparr> active = None \<rparr> ?props) ! 5) ! 0) []
       = record_call \<lparr> ti_day = DAY_LABELS_spec ! 0, ti_time = int 5 + 1 \<rparr> []"
    by blast
  then have "onClick (snd (rows (ScheduleTable CellSize_spec DAY_LABELS_spec (TIMES (parseHnM_spec 540) 60000)
                          \<lparr> active = None \<rparr> ?props) ! 5) ! 0) []
       = [\<lparr> ti_day = day_mon, ti_time = 6 \<rparr>]"
    by (simp add: record_call_def d)
  with h1 h2 d show ?thesis by blast
qed

end
